theory Spec2Isabelle
  imports Main "HOL-Library.AList" "HOL-Library.Monad_Syntax"
begin

section \<open>The ring-parameter fact collector\<close>

text \<open>
  A shallow embedding of \<^verbatim>\<open>src/ringparams_facts.py\<close>. Python text is a list of
  characters; a \<^typ>\<open>char\<close> stands for the code point of the same number, so the model
  covers text whose code points are below 256. A Python \<^verbatim>\<open>dict\<close> is an association
  list in insertion order (\<^const>\<open>AList.update\<close> overwrites a key in place and appends a
  new key, as \<^verbatim>\<open>d[k] = v\<close> does). A raised exception is the value \<open>None\<close>.
\<close>

subsection \<open>The string methods the module calls\<close>

text \<open>
  \<^verbatim>\<open>str.strip()\<close> removes leading and trailing whitespace. Below code point 256 Python's
  whitespace is TAB, LF, VT, FF, CR, FS, GS, RS, US, space, NEL (0x85) and NBSP (0xA0).
\<close>

definition is_space :: "char \<Rightarrow> bool" where
  "is_space c \<longleftrightarrow> c \<in> set [CHR 0x09, CHR 0x0A, CHR 0x0B, CHR 0x0C, CHR 0x0D,
                           CHR 0x1C, CHR 0x1D, CHR 0x1E, CHR 0x1F, CHR 0x20,
                           CHR 0x85, CHR 0xA0]"

definition strip :: "string \<Rightarrow> string" where
  "strip s = rev (dropWhile is_space (rev (dropWhile is_space s)))"

text \<open>
  \<^verbatim>\<open>str.splitlines()\<close> breaks at LF, CR, CR LF (one break), VT, FF, FS, GS, RS and NEL;
  the breaks are dropped, and text after the last break is a line only when it is not empty.
\<close>

definition is_linebreak :: "char \<Rightarrow> bool" where
  "is_linebreak c \<longleftrightarrow> c \<in> set [CHR 0x0A, CHR 0x0B, CHR 0x0C, CHR 0x0D,
                               CHR 0x1C, CHR 0x1D, CHR 0x1E, CHR 0x85]"

fun splitlines_from :: "string \<Rightarrow> string \<Rightarrow> string list" where
  "splitlines_from line [] = (if line = [] then [] else [line])"
| "splitlines_from line [c] =
     (if is_linebreak c then [line] else [line @ [c]])"
| "splitlines_from line (c # d # cs) =
     (if c = CHR 0x0D \<and> d = CHR 0x0A then line # splitlines_from [] cs
      else if is_linebreak c then line # splitlines_from [] (d # cs)
      else splitlines_from (line @ [c]) (d # cs))"

definition splitlines :: "string \<Rightarrow> string list" where
  "splitlines s = splitlines_from [] s"

text \<open>\<^verbatim>\<open>s.split(sep)\<close> for a one-character separator: every occurrence separates.\<close>

fun split :: "char \<Rightarrow> string \<Rightarrow> string list" where
  "split sep [] = [[]]"
| "split sep (c # cs) =
     (if c = sep then [] # split sep cs
      else (case split sep cs of
              [] \<Rightarrow> [[c]]
            | field # fields \<Rightarrow> (c # field) # fields))"

text \<open>\<^verbatim>\<open>xs[i]\<close> for \<open>i \<ge> 0\<close>: out of range raises \<^verbatim>\<open>IndexError\<close>.\<close>

definition item :: "'a list \<Rightarrow> nat \<Rightarrow> 'a option" where
  "item xs i = (if i < length xs then Some (xs ! i) else None)"

definition startswith :: "string \<Rightarrow> string \<Rightarrow> bool" where
  "startswith s p \<longleftrightarrow> take (length p) s = p"

text \<open>\<^verbatim>\<open>s.replace(old, new)\<close> for one-character \<^verbatim>\<open>old\<close> and \<^verbatim>\<open>new\<close>.\<close>

definition replace :: "char \<Rightarrow> char \<Rightarrow> string \<Rightarrow> string" where
  "replace old new s = map (\<lambda>c. if c = old then new else c) s"

text \<open>
  \<^verbatim>\<open>shlex.quote\<close>: the empty string becomes \<^verbatim>\<open>''\<close>; a string of letters, digits and
  \<^verbatim>\<open>_@%+=:,./-\<close> only is returned as it is; any other string is wrapped in single
  quotes, each single quote inside it written \<^verbatim>\<open>'"'"'\<close>.
\<close>

definition is_safe_char :: "char \<Rightarrow> bool" where
  "is_safe_char c \<longleftrightarrow>
     c \<in> set (''abcdefghijklmnopqrstuvwxyz'' @ ''ABCDEFGHIJKLMNOPQRSTUVWXYZ'' @
              ''0123456789'' @ ''_@%+=:,./-'')"

definition quote :: "string \<Rightarrow> string" where
  "quote s =
     (if s = [] then [CHR 0x27, CHR 0x27]
      else if list_all is_safe_char s then s
      else [CHR 0x27] @
           concat (map (\<lambda>c. if c = CHR 0x27
                              then [CHR 0x27, CHR 0x22, CHR 0x27, CHR 0x22, CHR 0x27]
                              else [c]) s) @
           [CHR 0x27])"

subsection \<open>The data the module builds\<close>

type_synonym ring_parameter_set = "(string \<times> string) list"

text \<open>\<^verbatim>\<open>values[interface]\<close>: a dict with the keys \<^verbatim>\<open>'current'\<close> and \<^verbatim>\<open>'preset'\<close>.\<close>

record parameters =
  params_current :: ring_parameter_set
  params_preset :: ring_parameter_set

text \<open>An element of \<^verbatim>\<open>ringparams\<close>; the key \<^verbatim>\<open>'msg'\<close> is optional.\<close>

record interface_record =
  interface :: string
  supported :: bool
  parameters :: parameters
  msg :: "string option"

subsection \<open>The scan of one interface's stdout (lines 166 to 194)\<close>

text \<open>
  The state of the \<^verbatim>\<open>for line in ...\<close> loop: the flags \<^verbatim>\<open>pre\<close> and \<^verbatim>\<open>current\<close> and
  the dict \<^verbatim>\<open>values[interface]\<close>. The locals \<^verbatim>\<open>preSetRX\<close>, \<^verbatim>\<open>preSetTX\<close>, \<^verbatim>\<open>currentRX\<close> and
  \<^verbatim>\<open>currentTX\<close> are written and read back in the next statement only, so the model
  stores the value directly.
\<close>

record scan_state =
  pre :: bool
  current :: bool
  vals :: parameters

text \<open>Lines 154 and 155: both dicts start empty.\<close>

definition empty_parameters :: parameters where
  "empty_parameters = \<lparr>params_current = [], params_preset = []\<rparr>"

text \<open>Lines 166 and 167: both flags start \<^verbatim>\<open>False\<close>.\<close>

definition scan_start :: "parameters \<Rightarrow> scan_state" where
  "scan_start p = \<lparr>pre = False, current = False, vals = p\<rparr>"

text \<open>Lines 175 to 180: the two header tests, one after the other.\<close>

definition set_mode :: "string \<Rightarrow> scan_state \<Rightarrow> scan_state" where
  "set_mode l s =
     (let s1 = (if l = ''Pre-set maximums:'' then s\<lparr>current := False, pre := True\<rparr> else s);
          s2 = (if l = ''Current hardware settings:''
                then s1\<lparr>current := True, pre := False\<rparr> else s1)
      in s2)"

text \<open>
  The body of \<^verbatim>\<open>if l.startswith('RX:')\<close> (lines 182 to 187) and of its \<^verbatim>\<open>TX\<close> twin
  (lines 189 to 194), for the key \<open>key\<close>: \<^verbatim>\<open>l.split(':')[1].strip()\<close> is stored under
  \<^verbatim>\<open>'current'\<close> when \<^verbatim>\<open>current\<close> is set and under \<^verbatim>\<open>'preset'\<close> when \<^verbatim>\<open>pre\<close> is set.
\<close>

definition store_current :: "string \<Rightarrow> string \<Rightarrow> scan_state \<Rightarrow> scan_state" where
  "store_current key v s =
     s\<lparr>vals := (vals s)\<lparr>params_current := AList.update key v (params_current (vals s))\<rparr>\<rparr>"

definition store_preset :: "string \<Rightarrow> string \<Rightarrow> scan_state \<Rightarrow> scan_state" where
  "store_preset key v s =
     s\<lparr>vals := (vals s)\<lparr>params_preset := AList.update key v (params_preset (vals s))\<rparr>\<rparr>"

definition store_key :: "string \<Rightarrow> string \<Rightarrow> scan_state \<Rightarrow> scan_state option" where
  "store_key key l s =
     do {
       s1 \<leftarrow> (if current s
              then do { f \<leftarrow> item (split CHR '':'' l) 1; Some (store_current key (strip f) s) }
              else Some s);
       (if pre s1
        then do { f \<leftarrow> item (split CHR '':'' l) 1; Some (store_preset key (strip f) s1) }
        else Some s1)
     }"

text \<open>One pass of the loop body (lines 174 to 194).\<close>

definition scan_line :: "scan_state \<Rightarrow> string \<Rightarrow> scan_state option" where
  "scan_line s line =
     (let l = strip line;
          s2 = set_mode l s
      in do {
        s3 \<leftarrow> (if startswith l ''RX:'' then store_key ''RX'' l s2 else Some s2);
        (if startswith l ''TX:'' then store_key ''TX'' l s3 else Some s3)
      })"

fun scan_lines :: "scan_state \<Rightarrow> string list \<Rightarrow> scan_state option" where
  "scan_lines s [] = Some s"
| "scan_lines s (line # lines) =
     (case scan_line s line of None \<Rightarrow> None | Some s' \<Rightarrow> scan_lines s' lines)"

text \<open>Line 173 with the loop: \<^verbatim>\<open>for line in stdout.strip().splitlines()\<close>.\<close>

definition scan_stdout :: "parameters \<Rightarrow> string \<Rightarrow> scan_state option" where
  "scan_stdout p stdout = scan_lines (scan_start p) (splitlines (strip stdout))"

subsection \<open>The host and the state of a run\<close>

text \<open>
  What the module asks of the host: \<^verbatim>\<open>shutil.which('ethtool')\<close>,
  \<^verbatim>\<open>os.path.isfile('/proc/net/dev')\<close> and \<^verbatim>\<open>module.run_command\<close>, which takes the
  command line and returns \<^verbatim>\<open>(rc, stdout, stderr)\<close>. The host has a state of its own
  (\<open>'w\<close>), so the same command may answer differently each time it is run. The
  field \<^verbatim>\<open>run_command\<close> is the answer of a command that started; a command that cannot be
  started is treated further down (\<open>main_or_fail\<close>). What \<^verbatim>\<open>AnsibleModule\<close> does before
  \<^verbatim>\<open>main\<close> reads its parameters (argument parsing, the choice of a locale in lines 132 to
  137) is the framework's and is not part of the model.
\<close>

record 'w host =
  which_ethtool :: "string option"
  isfile_proc_net_dev :: bool
  run_command :: "string \<Rightarrow> 'w \<Rightarrow> (int \<times> string \<times> string) \<times> 'w"

text \<open>
  The state \<^verbatim>\<open>main\<close> threads through its calls: the host's state, the messages
  passed to \<^verbatim>\<open>module.warn\<close> in call order, the dict \<^verbatim>\<open>values\<close> and the list
  \<^verbatim>\<open>ringparams\<close>.
\<close>

record 'w run_state =
  world :: 'w
  warnings :: "string list"
  values_dict :: "(string \<times> parameters) list"
  ringparams :: "interface_record list"

definition warn :: "string \<Rightarrow> 'w run_state \<Rightarrow> 'w run_state" where
  "warn m st = st\<lparr>warnings := warnings st @ [m]\<rparr>"

subsection \<open>\<^verbatim>\<open>get_interfaces\<close> (lines 107 to 125)\<close>

definition list_command :: string where
  "list_command =
     ''/usr/bin/cat /proc/net/dev | /usr/bin/tail -n +3 | /usr/bin/awk -F: '' @
     [CHR 0x27] @ ''{ print $1 }'' @ [CHR 0x27]"

fun get_interfaces_loop :: "string list \<Rightarrow> string list \<Rightarrow> string list" where
  "get_interfaces_loop list_interfaces [] = list_interfaces"
| "get_interfaces_loop list_interfaces (line # lines) =
     (let intf = strip line
      in if intf \<noteq> ''lo'' then get_interfaces_loop (list_interfaces @ [intf]) lines
         else get_interfaces_loop list_interfaces lines)"

definition get_interfaces :: "'w host \<Rightarrow> 'w run_state \<Rightarrow> string list \<times> 'w run_state" where
  "get_interfaces h st =
     (if isfile_proc_net_dev h then
        (case run_command h list_command (world st) of
           ((rc, stdout, stderr), w') \<Rightarrow>
             let st1 = st\<lparr>world := w'\<rparr>
             in if rc = 0 then (get_interfaces_loop [] (splitlines (strip stdout)), st1)
                else (let stderr' = replace CHR 0x0A CHR ''.'' stderr
                      in ([], warn (''Unable to fetch list of network interfaces: '' @ stderr')
                                 st1)))
      else ([], st))"

subsection \<open>\<^verbatim>\<open>main\<close> (lines 128 to 199)\<close>

text \<open>The body of \<^verbatim>\<open>for interface in list_interfaces\<close> (lines 153 to 196).\<close>

definition process_interface ::
  "'w host \<Rightarrow> string \<Rightarrow> 'w run_state \<Rightarrow> string \<Rightarrow> 'w run_state option" where
  "process_interface h exe st iface =
     (let st1 = st\<lparr>values_dict := AList.update iface empty_parameters (values_dict st)\<rparr>
      in case run_command h (exe @ '' -g '' @ quote iface) (world st1) of
           ((rc, stdout, stderr), w') \<Rightarrow>
             let st2 = st1\<lparr>world := w'\<rparr>
             in if rc \<noteq> 0 then
                  (let stderr' = replace CHR 0x0A CHR ''.'' stderr;
                       st3 = warn (''Unable to run ethtool for '' @ iface @ '': '' @ stderr') st2
                   in do {
                     p \<leftarrow> map_of (values_dict st3) iface;
                     Some (st3\<lparr>ringparams := ringparams st3 @
                             [\<lparr>interface = iface, supported = False, parameters = p,
                               msg = Some ''Failed to find ringparams''\<rparr>]\<rparr>)
                   })
                else if rc = 0 then
                  do {
                    p \<leftarrow> map_of (values_dict st2) iface;
                    s \<leftarrow> scan_stdout p stdout;
                    let st3 = st2\<lparr>values_dict := AList.update iface (vals s) (values_dict st2)\<rparr>;
                    p' \<leftarrow> map_of (values_dict st3) iface;
                    Some (st3\<lparr>ringparams := ringparams st3 @
                            [\<lparr>interface = iface, supported = True, parameters = p',
                              msg = None\<rparr>]\<rparr>)
                  }
                else Some st2)"

fun main_loop ::
  "'w host \<Rightarrow> string \<Rightarrow> 'w run_state \<Rightarrow> string list \<Rightarrow> 'w run_state option" where
  "main_loop h exe st [] = Some st"
| "main_loop h exe st (iface # ifaces) =
     (case process_interface h exe st iface of
        None \<Rightarrow> None
      | Some st' \<Rightarrow> main_loop h exe st' ifaces)"

text \<open>Lines 149 and 150: an empty list of names is replaced by the discovered one.\<close>

definition resolve_interfaces ::
  "'w host \<Rightarrow> string list \<Rightarrow> 'w run_state \<Rightarrow> string list \<times> 'w run_state" where
  "resolve_interfaces h list_interfaces st =
     (if list_interfaces = [] then get_interfaces h st else (list_interfaces, st))"

text \<open>
  How a run ends: \<^verbatim>\<open>module.fail_json\<close> (which exits the process) with its message
  and the \<^verbatim>\<open>network_interfaces\<close> it reports, \<^verbatim>\<open>module.exit_json\<close> with the list under
  \<^verbatim>\<open>ansible_facts.ringparams\<close>, or an exception nobody catches. The first two carry
  the state of the run at that moment.
\<close>

datatype 'w run_result =
    Fail_json string "string list" "'w run_state"
  | Exit_json "interface_record list" "'w run_state"
  | Uncaught_exception

definition run_start :: "'w \<Rightarrow> 'w run_state" where
  "run_start w = \<lparr>world = w, warnings = [], values_dict = [], ringparams = []\<rparr>"

definition main :: "'w host \<Rightarrow> string list \<Rightarrow> 'w \<Rightarrow> 'w run_result" where
  "main h interfaces w =
     (let st = run_start w
      in case which_ethtool h of
           None \<Rightarrow> Fail_json ''Could not find ethtool executable'' interfaces st
         | Some exe \<Rightarrow>
             (case resolve_interfaces h interfaces st of
                (list_interfaces, st1) \<Rightarrow>
                  (case main_loop h exe st1 list_interfaces of
                     None \<Rightarrow> Uncaught_exception
                   | Some st2 \<Rightarrow> Exit_json (ringparams st2) st2)))"

subsection \<open>A command that cannot be started\<close>

text \<open>
  \<^verbatim>\<open>module.run_command\<close> is called at lines 112 and 157 with its exception handling left
  at the default: when the command cannot be started (the operating system refuses to
  execute it), the framework itself calls \<^verbatim>\<open>fail_json\<close> with the error's text and the run
  ends inside the call. The field \<^const>\<open>run_command\<close> of a host is the answer of a
  command that did start; whether a command starts is asked of the host separately: in a
  given state of the host a command either starts (\<open>None\<close>) or fails to, with the text of
  the error.
\<close>

type_synonym 'w start_error = "string \<Rightarrow> 'w \<Rightarrow> string option"

text \<open>
  How a run ends once this is taken into account: inside \<^verbatim>\<open>run_command\<close>, with the error's
  text and the state of the run at the call, or as \<^verbatim>\<open>main\<close> ends it.
\<close>

datatype 'w framework_result =
    Run_command_failed string "'w run_state"
  | Main_ended "'w run_result"

text \<open>
  \<^verbatim>\<open>get_interfaces\<close> runs one command, and only when \<^verbatim>\<open>/proc/net/dev\<close> is a file (line 111);
  when that command starts, the function goes on as \<^const>\<open>get_interfaces\<close> does.
\<close>

definition get_interfaces_or_fail ::
  "'w start_error \<Rightarrow> 'w host \<Rightarrow> 'w run_state \<Rightarrow>
   (string \<times> 'w run_state) + (string list \<times> 'w run_state)" where
  "get_interfaces_or_fail start_error h st =
     (if isfile_proc_net_dev h then
        (case start_error list_command (world st) of
           Some e \<Rightarrow> Inl (e, st)
         | None \<Rightarrow> Inr (get_interfaces h st))
      else Inr (get_interfaces h st))"

definition resolve_interfaces_or_fail ::
  "'w start_error \<Rightarrow> 'w host \<Rightarrow> string list \<Rightarrow> 'w run_state \<Rightarrow>
   (string \<times> 'w run_state) + (string list \<times> 'w run_state)" where
  "resolve_interfaces_or_fail start_error h list_interfaces st =
     (if list_interfaces = [] then get_interfaces_or_fail start_error h st
      else Inr (list_interfaces, st))"

text \<open>
  The loop body runs one command (line 157), after lines 153 to 155 have reset
  \<^verbatim>\<open>values[interface]\<close>; when it starts, the pass goes on as \<^const>\<open>process_interface\<close> does.
\<close>

definition process_interface_or_fail ::
  "'w start_error \<Rightarrow> 'w host \<Rightarrow> string \<Rightarrow> 'w run_state \<Rightarrow> string \<Rightarrow>
   (string \<times> 'w run_state) + 'w run_state option" where
  "process_interface_or_fail start_error h exe st iface =
     (let st1 = st\<lparr>values_dict := AList.update iface empty_parameters (values_dict st)\<rparr>
      in case start_error (exe @ '' -g '' @ quote iface) (world st1) of
           Some e \<Rightarrow> Inl (e, st1)
         | None \<Rightarrow> Inr (process_interface h exe st iface))"

fun main_loop_or_fail ::
  "'w start_error \<Rightarrow> 'w host \<Rightarrow> string \<Rightarrow> 'w run_state \<Rightarrow> string list \<Rightarrow>
   (string \<times> 'w run_state) + 'w run_state option" where
  "main_loop_or_fail start_error h exe st [] = Inr (Some st)"
| "main_loop_or_fail start_error h exe st (iface # ifaces) =
     (case process_interface_or_fail start_error h exe st iface of
        Inl failure \<Rightarrow> Inl failure
      | Inr None \<Rightarrow> Inr None
      | Inr (Some st') \<Rightarrow> main_loop_or_fail start_error h exe st' ifaces)"

text \<open>\<^verbatim>\<open>main\<close>, with a run that may end inside \<^verbatim>\<open>run_command\<close>.\<close>

definition main_or_fail ::
  "'w start_error \<Rightarrow> 'w host \<Rightarrow> string list \<Rightarrow> 'w \<Rightarrow> 'w framework_result" where
  "main_or_fail start_error h interfaces w =
     (let st = run_start w
      in case which_ethtool h of
           None \<Rightarrow> Main_ended (Fail_json ''Could not find ethtool executable'' interfaces st)
         | Some exe \<Rightarrow>
             (case resolve_interfaces_or_fail start_error h interfaces st of
                Inl (e, st1) \<Rightarrow> Run_command_failed e st1
              | Inr (list_interfaces, st1) \<Rightarrow>
                  (case main_loop_or_fail start_error h exe st1 list_interfaces of
                     Inl (e, st2) \<Rightarrow> Run_command_failed e st2
                   | Inr None \<Rightarrow> Main_ended Uncaught_exception
                   | Inr (Some st2) \<Rightarrow> Main_ended (Exit_json (ringparams st2) st2))))"

subsection \<open>Descriptions used in the statements\<close>

text \<open>
  What lines 182 to 187 do to the state once the value \<open>v\<close> is known: the store under
  \<^verbatim>\<open>'current'\<close> first, then the store under \<^verbatim>\<open>'preset'\<close>, each behind its flag.
\<close>

definition store_value :: "string \<Rightarrow> string \<Rightarrow> scan_state \<Rightarrow> scan_state" where
  "store_value key v s =
     (let s1 = (if current s then store_current key v s else s)
      in if pre s1 then store_preset key v s1 else s1)"

text \<open>The text up to the next colon (or to the end when there is none), trimmed.\<close>

definition second_field :: "string \<Rightarrow> string" where
  "second_field rest = strip (takeWhile (\<lambda>c. c \<noteq> CHR '':'') rest)"

text \<open>
  The value as the specification words it: the line is split at its first colon and
  the whole remainder is trimmed.
\<close>

definition remainder_after_first_colon :: "string \<Rightarrow> string" where
  "remainder_after_first_colon l = strip (drop 1 (dropWhile (\<lambda>c. c \<noteq> CHR '':'') l))"

text \<open>
  A host for the examples. Its state is the list of answers still to be given: each
  command run takes the next answer, whatever the command is, and a command run after
  the last answer exits with code 127.
\<close>

definition scripted_host ::
  "string option \<Rightarrow> bool \<Rightarrow> (int \<times> string \<times> string) list host" where
  "scripted_host exe isfile =
     \<lparr>which_ethtool = exe, isfile_proc_net_dev = isfile,
      run_command = (\<lambda>cmd w. case w of [] \<Rightarrow> ((127, [], []), [])
                                      | answer # answers \<Rightarrow> (answer, answers))\<rparr>"

text \<open>
  Two answers to whether a command starts, for the examples: every command starts; a
  command line that begins with \<open>exe\<close> fails to start with an exec format error.
\<close>

definition always_starts :: "'w start_error" where
  "always_starts cmd w = None"


text \<open>Joining lines with LF, to write an example stdout.\<close>

definition unlines :: "string list \<Rightarrow> string" where
  "unlines ls = concat (map (\<lambda>l. l @ [CHR 0x0A]) ls)"

text \<open>
  What every emitted record satisfies: \<^verbatim>\<open>msg\<close> is absent exactly when \<^verbatim>\<open>supported\<close> is
  true, and an unsupported record has both parameter sets empty.
\<close>

definition consistent_record :: "interface_record \<Rightarrow> bool" where
  "consistent_record r \<longleftrightarrow>
     (supported r \<longleftrightarrow> msg r = None) \<and> (\<not> supported r \<longrightarrow> parameters r = empty_parameters)"

section \<open>Properties\<close>

subsection \<open>Splitting and indexing\<close>

lemma split_not_Nil: "split sep s \<noteq> []"
  by (induction s) (auto split: list.splits)

lemma split_append_sep:
  "sep \<notin> set a \<Longrightarrow> split sep (a @ sep # b) = a # split sep b"
  by (induction a) (auto split: list.splits)

lemma hd_split: "hd (split sep s) = takeWhile (\<lambda>c. c \<noteq> sep) s"
  by (induction s) (auto split: list.splits simp: split_not_Nil)

lemma item_split_second:
  assumes "sep \<notin> set a"
  shows "item (split sep (a @ sep # b)) 1 = Some (takeWhile (\<lambda>c. c \<noteq> sep) b)"
proof -
  obtain f fs where fs: "split sep b = f # fs"
    using split_not_Nil [of sep b] by (cases "split sep b") auto
  have "f = takeWhile (\<lambda>c. c \<noteq> sep) b"
    using hd_split [of sep b] fs by simp
  then show ?thesis
    using assms fs by (simp add: item_def split_append_sep)
qed

lemma startswithD: "startswith s p \<Longrightarrow> s = p @ drop (length p) s"
  unfolding startswith_def by (metis append_take_drop_id)

subsection \<open>One line of the scan\<close>

lemma store_key_field:
  assumes "CHR '':'' \<notin> set key"
  shows "store_key key (key @ CHR '':'' # rest) s = Some (store_value key (second_field rest) s)"
  using assms
  by (simp add: store_key_def store_value_def second_field_def
      item_split_second [unfolded One_nat_def] store_current_def store_preset_def Let_def)

lemma scan_line_pre_header:
  "strip line = ''Pre-set maximums:'' \<Longrightarrow>
   scan_line s line = Some (s\<lparr>current := False, pre := True\<rparr>)"
  by (simp add: scan_line_def set_mode_def startswith_def)

lemma scan_line_current_header:
  "strip line = ''Current hardware settings:'' \<Longrightarrow>
   scan_line s line = Some (s\<lparr>current := True, pre := False\<rparr>)"
  by (simp add: scan_line_def set_mode_def startswith_def)

lemma scan_line_RX:
  assumes "strip line = ''RX:'' @ rest"
  shows "scan_line s line = Some (store_value ''RX'' (second_field rest) s)"
proof -
  have "store_key ''RX'' (''RX'' @ CHR '':'' # rest) s =
        Some (store_value ''RX'' (second_field rest) s)"
    by (rule store_key_field) simp
  then show ?thesis
    using assms by (simp add: scan_line_def set_mode_def startswith_def)
qed

lemma scan_line_TX:
  assumes "strip line = ''TX:'' @ rest"
  shows "scan_line s line = Some (store_value ''TX'' (second_field rest) s)"
proof -
  have "store_key ''TX'' (''TX'' @ CHR '':'' # rest) s =
        Some (store_value ''TX'' (second_field rest) s)"
    by (rule store_key_field) simp
  then show ?thesis
    using assms by (simp add: scan_line_def set_mode_def startswith_def)
qed

lemma scan_line_other:
  assumes "strip line \<noteq> ''Pre-set maximums:''"
    and "strip line \<noteq> ''Current hardware settings:''"
    and "\<not> startswith (strip line) ''RX:''"
    and "\<not> startswith (strip line) ''TX:''"
  shows "scan_line s line = Some s"
  using assms by (simp add: scan_line_def set_mode_def)

lemma scan_line_cases:
  obtains (pre_header) "strip line = ''Pre-set maximums:''"
  | (current_header) "strip line = ''Current hardware settings:''"
  | (rx) rest where "strip line = ''RX:'' @ rest"
  | (tx) rest where "strip line = ''TX:'' @ rest"
  | (other) "strip line \<noteq> ''Pre-set maximums:''"
      "strip line \<noteq> ''Current hardware settings:''"
      "\<not> startswith (strip line) ''RX:''" "\<not> startswith (strip line) ''TX:''"
  using startswithD [of "strip line" "''RX:''"] startswithD [of "strip line" "''TX:''"]
  by (metis (full_types))

lemma scan_line_total: "\<exists>s'. scan_line s line = Some s'"
  by (cases line rule: scan_line_cases)
     (simp_all add: scan_line_pre_header scan_line_current_header scan_line_RX scan_line_TX
        scan_line_other)

subsection \<open>The whole scan\<close>

lemma scan_lines_total: "\<exists>s'. scan_lines s lines = Some s'"
proof (induction lines arbitrary: s)
  case Nil
  show ?case by simp
next
  case (Cons line lines)
  obtain s1 where "scan_line s line = Some s1"
    using scan_line_total by blast
  then show ?case
    using Cons.IH [of s1] by simp
qed

lemma scan_lines_append:
  "scan_lines s (xs @ ys) = Option.bind (scan_lines s xs) (\<lambda>s'. scan_lines s' ys)"
  by (induction xs arbitrary: s) (auto split: option.splits)

subsection \<open>What a store changes\<close>

lemma flags_store_value [simp]:
  "pre (store_value key v s) = pre s" "current (store_value key v s) = current s"
  by (simp_all add: store_value_def store_current_def store_preset_def Let_def)

lemma current_store_value:
  "params_current (vals (store_value key v s)) =
     (if current s then AList.update key v (params_current (vals s))
      else params_current (vals s))"
  by (simp add: store_value_def store_current_def store_preset_def Let_def)

lemma preset_store_value:
  "params_preset (vals (store_value key v s)) =
     (if pre s then AList.update key v (params_preset (vals s))
      else params_preset (vals s))"
  by (simp add: store_value_def store_current_def store_preset_def Let_def)

lemma map_of_update_same: "map_of (AList.update k v al) k = Some v"
  by (simp add: update_conv')

lemma map_of_update_other: "k' \<noteq> k \<Longrightarrow> map_of (AList.update k v al) k' = map_of al k'"
  by (simp add: update_conv')

subsection \<open>A line with a key and no value\<close>

text \<open>
  C10. A line whose trimmed form is exactly \<^verbatim>\<open>RX:\<close> or \<^verbatim>\<open>TX:\<close> stores the empty string:
  after the line the key is present, mapped to the empty text, in the parameter set of
  each flag that is set.
\<close>
theorem empty_value_is_stored:
  assumes "key = ''RX'' \<or> key = ''TX''" and "strip line = key @ '':''"
  shows "\<exists>s'. scan_line s line = Some s' \<and>
           (current s \<longrightarrow> map_of (params_current (vals s')) key = Some '''') \<and>
           (pre s \<longrightarrow> map_of (params_preset (vals s')) key = Some '''')"
proof -
  have empty: "second_field [] = []"
    by (simp add: second_field_def strip_def)
  have "scan_line s line = Some (store_value key [] s)"
    using assms scan_line_RX [of line "[]" s] scan_line_TX [of line "[]" s]
    by (auto simp: empty)
  then show ?thesis
    by (simp add: current_store_value preset_store_value map_of_update_same)
qed

theorem empty_value_is_stored_witness:
  "scan_line \<lparr>pre = False, current = True, vals = empty_parameters\<rparr> ''  RX:  '' =
     Some \<lparr>pre = False, current = True,
           vals = \<lparr>params_current = [(''RX'', '''')], params_preset = []\<rparr>\<rparr> \<and>
   map_of [(''RX'', '''')] ''RX'' = Some ''''"
proof -
  have l: "strip ''  RX:  '' = ''RX'' @ '':''"
    by code_simp
  have run: "scan_line \<lparr>pre = False, current = True, vals = empty_parameters\<rparr> ''  RX:  '' =
     Some \<lparr>pre = False, current = True,
           vals = \<lparr>params_current = [(''RX'', '''')], params_preset = []\<rparr>\<rparr>"
    by code_simp
  show ?thesis
    using empty_value_is_stored [OF _ l, of "\<lparr>pre = False, current = True, vals = empty_parameters\<rparr>"]
      run by simp
qed

subsection \<open>The two flags exclude each other\<close>

lemma scan_line_exclusive:
  assumes "\<not> (pre s \<and> current s)" and "scan_line s line = Some s'"
  shows "\<not> (pre s' \<and> current s')"
  using assms
  by (cases line rule: scan_line_cases)
     (auto simp: scan_line_pre_header scan_line_current_header scan_line_RX scan_line_TX
        scan_line_other)

lemma scan_lines_exclusive:
  assumes "\<not> (pre s \<and> current s)" and "scan_lines s lines = Some s'"
  shows "\<not> (pre s' \<and> current s')"
  using assms
proof (induction lines arbitrary: s)
  case Nil
  then show ?case by simp
next
  case (Cons line lines)
  obtain s1 where s1: "scan_line s line = Some s1"
    using scan_line_total by blast
  have "\<not> (pre s1 \<and> current s1)"
    using Cons.prems(1) s1 by (rule scan_line_exclusive)
  moreover have "scan_lines s1 lines = Some s'"
    using Cons.prems(2) s1 by simp
  ultimately show ?case
    by (rule Cons.IH)
qed

lemma scan_line_one_set:
  assumes "\<not> (pre s \<and> current s)" and "scan_line s line = Some s'"
  shows "params_current (vals s') = params_current (vals s) \<or>
         params_preset (vals s') = params_preset (vals s)"
  using assms
  by (cases line rule: scan_line_cases)
     (auto simp: scan_line_pre_header scan_line_current_header scan_line_RX scan_line_TX
        scan_line_other current_store_value preset_store_value)

text \<open>
  C9. After any prefix \<open>xs\<close> of the lines the scan has not raised, the flags \<^verbatim>\<open>pre\<close> and
  \<^verbatim>\<open>current\<close> are not both set, and whatever line comes next leaves at least one of
  the two parameter sets as it was.
\<close>
theorem flags_never_both_set:
  "\<exists>s. scan_lines (scan_start p) xs = Some s \<and> \<not> (pre s \<and> current s) \<and>
     (\<forall>line. \<exists>s'. scan_line s line = Some s' \<and>
        (params_current (vals s') = params_current (vals s) \<or>
         params_preset (vals s') = params_preset (vals s)))"
proof -
  obtain s where s: "scan_lines (scan_start p) xs = Some s"
    using scan_lines_total by blast
  have excl: "\<not> (pre s \<and> current s)"
    by (rule scan_lines_exclusive [OF _ s]) (simp add: scan_start_def)
  have "\<exists>s'. scan_line s line = Some s' \<and>
        (params_current (vals s') = params_current (vals s) \<or>
         params_preset (vals s') = params_preset (vals s))" for line
    using scan_line_total [of s line] scan_line_one_set [OF excl] by blast
  with s excl show ?thesis by blast
qed

subsection \<open>Lines before the first header\<close>

lemma store_value_no_flag: "\<not> pre s \<Longrightarrow> \<not> current s \<Longrightarrow> store_value key v s = s"
  by (simp add: store_value_def)

lemma scan_line_no_section:
  assumes "\<not> pre s" and "\<not> current s"
    and "strip line \<noteq> ''Pre-set maximums:''"
    and "strip line \<noteq> ''Current hardware settings:''"
  shows "scan_line s line = Some s"
  using assms
  by (cases line rule: scan_line_cases)
     (simp_all add: scan_line_RX scan_line_TX scan_line_other store_value_no_flag)

lemma scan_lines_no_section:
  assumes "\<not> pre s" and "\<not> current s"
    and "\<forall>line\<in>set xs. strip line \<noteq> ''Pre-set maximums:'' \<and>
           strip line \<noteq> ''Current hardware settings:''"
  shows "scan_lines s xs = Some s"
  using assms by (induction xs) (simp_all add: scan_line_no_section)

text \<open>
  C5. Lines before the first section header contribute nothing: when the lines of a stdout
  are \<open>xs\<close> followed by \<open>ys\<close> and no line of \<open>xs\<close> is a header, the scan of \<open>xs\<close> leaves the
  starting state (both flags clear, both parameter sets as they were) untouched, and the
  scan of the stdout ends as the scan of \<open>ys\<close> alone does.
\<close>
theorem lines_before_first_header_ignored:
  assumes "splitlines (strip stdout) = xs @ ys"
    and "\<forall>line\<in>set xs. strip line \<noteq> ''Pre-set maximums:'' \<and>
           strip line \<noteq> ''Current hardware settings:''"
  shows "scan_lines (scan_start p) xs = Some (scan_start p) \<and>
         scan_stdout p stdout = scan_lines (scan_start p) ys"
proof -
  have "scan_lines (scan_start p) xs = Some (scan_start p)"
    using assms(2) by (intro scan_lines_no_section) (simp_all add: scan_start_def)
  then show ?thesis
    using assms(1) by (simp add: scan_stdout_def scan_lines_append)
qed

theorem lines_before_first_header_ignored_witness:
  "scan_lines (scan_start empty_parameters) [''RX: 1'', ''  TX: 2''] =
     Some (scan_start empty_parameters) \<and>
   scan_stdout empty_parameters
     (unlines [''RX: 1'', ''  TX: 2'', ''Current hardware settings:'', ''RX: 3'']) =
     Some \<lparr>pre = False, current = True,
           vals = \<lparr>params_current = [(''RX'', ''3'')], params_preset = []\<rparr>\<rparr>"
proof -
  have lines: "splitlines (strip (unlines [''RX: 1'', ''  TX: 2'', ''Current hardware settings:'', ''RX: 3''])) =
      [''RX: 1'', ''  TX: 2''] @ [''Current hardware settings:'', ''RX: 3'']"
    by code_simp
  have no_header: "\<forall>line\<in>set [''RX: 1'', ''  TX: 2''].
      strip line \<noteq> ''Pre-set maximums:'' \<and> strip line \<noteq> ''Current hardware settings:''"
    by code_simp
  have rest: "scan_lines (scan_start empty_parameters) [''Current hardware settings:'', ''RX: 3''] =
     Some \<lparr>pre = False, current = True,
           vals = \<lparr>params_current = [(''RX'', ''3'')], params_preset = []\<rparr>\<rparr>"
    by code_simp
  show ?thesis
    using lines_before_first_header_ignored [OF lines no_header, of empty_parameters] rest
    by simp
qed

subsection \<open>The value an RX or TX line stores\<close>

lemma remainder_after_key:
  assumes "CHR '':'' \<notin> set key"
  shows "remainder_after_first_colon (key @ '':'' @ rest) = strip rest"
proof -
  have "dropWhile (\<lambda>c. c \<noteq> CHR '':'') (key @ '':'' @ rest) = '':'' @ rest"
    using assms by (subst dropWhile_append2) auto
  then show ?thesis
    by (simp add: remainder_after_first_colon_def)
qed

lemma second_field_whole:
  "CHR '':'' \<notin> set rest \<Longrightarrow> second_field rest = strip rest"
proof -
  assume "CHR '':'' \<notin> set rest"
  then have "takeWhile (\<lambda>c. c \<noteq> CHR '':'') rest = rest"
    by (subst takeWhile_eq_all_conv) auto
  then show ?thesis
    unfolding second_field_def by (rule arg_cong)
qed

text \<open>
  C2, as stated, fails: \<^verbatim>\<open>l.split(':')\<close> splits at every colon and index 1 is the second
  field only. On the line \<^verbatim>\<open>RX: 4096 (max: 8192)\<close> in the current section the module
  stores \<^verbatim>\<open>4096 (max\<close>, not the remainder after the first colon.
\<close>

theorem value_ends_at_second_colon_counterexample:
  "scan_line \<lparr>pre = False, current = True, vals = empty_parameters\<rparr> ''RX: 4096 (max: 8192)'' =
     Some \<lparr>pre = False, current = True,
           vals = \<lparr>params_current = [(''RX'', ''4096 (max'')], params_preset = []\<rparr>\<rparr> \<and>
   remainder_after_first_colon (strip ''RX: 4096 (max: 8192)'') = ''4096 (max: 8192)'' \<and>
   ''4096 (max'' \<noteq> remainder_after_first_colon (strip ''RX: 4096 (max: 8192)'')"
  by code_simp

text \<open>
  C2, amended. For a line whose trimmed form is \<^verbatim>\<open>RX:\<close> or \<^verbatim>\<open>TX:\<close> followed by \<open>rest\<close>, the
  value stored under each set flag is \<open>rest\<close> up to its first colon (all of \<open>rest\<close> when it
  has none), trimmed; when \<open>rest\<close> has no colon this is the whole remainder of the line
  after its first colon, trimmed.
\<close>

theorem stored_value_is_second_field:
  assumes "key = ''RX'' \<or> key = ''TX''" and "strip line = key @ '':'' @ rest"
  shows "\<exists>s'. scan_line s line = Some s' \<and>
           (current s \<longrightarrow> map_of (params_current (vals s')) key =
              Some (strip (takeWhile (\<lambda>c. c \<noteq> CHR '':'') rest))) \<and>
           (pre s \<longrightarrow> map_of (params_preset (vals s')) key =
              Some (strip (takeWhile (\<lambda>c. c \<noteq> CHR '':'') rest))) \<and>
           (CHR '':'' \<notin> set rest \<longrightarrow>
              strip (takeWhile (\<lambda>c. c \<noteq> CHR '':'') rest) =
              remainder_after_first_colon (strip line))"
proof -
  have "scan_line s line = Some (store_value key (second_field rest) s)"
    using assms scan_line_RX [of line rest s] scan_line_TX [of line rest s] by auto
  moreover have "remainder_after_first_colon (strip line) = strip rest"
    using assms remainder_after_key [of key rest] by auto
  ultimately show ?thesis
    using second_field_whole [of rest]
    by (simp add: current_store_value preset_store_value map_of_update_same second_field_def)
qed

theorem stored_value_is_second_field_witness:
  "\<exists>s'. scan_line \<lparr>pre = True, current = False, vals = empty_parameters\<rparr>
           '' TX:   4096 (max) '' = Some s' \<and>
     map_of (params_preset (vals s')) ''TX'' = Some ''4096 (max)'' \<and>
     ''4096 (max)'' = remainder_after_first_colon (strip '' TX:   4096 (max) '')"
proof -
  have k: "''TX'' = ''RX'' \<or> ''TX'' = ''TX''"
    by simp
  have l: "strip '' TX:   4096 (max) '' = ''TX'' @ '':'' @ ''   4096 (max)''"
    by code_simp
  have v: "strip (takeWhile (\<lambda>c. c \<noteq> CHR '':'') ''   4096 (max)'') = ''4096 (max)''"
    by code_simp
  show ?thesis
    using stored_value_is_second_field
      [OF k l, of "\<lparr>pre = True, current = False, vals = empty_parameters\<rparr>"] v
    by simp
qed

subsection \<open>A repeated section\<close>

lemma scan_line_keeps_current_flag:
  assumes "current s" and "strip line \<noteq> ''Pre-set maximums:''"
    and "scan_line s line = Some s'"
  shows "current s'"
  using assms
  by (cases line rule: scan_line_cases)
     (auto simp: scan_line_current_header scan_line_RX scan_line_TX scan_line_other)

lemma scan_lines_keep_current_flag:
  assumes "current s" and "\<forall>l\<in>set ms. strip l \<noteq> ''Pre-set maximums:''"
    and "scan_lines s ms = Some s'"
  shows "current s'"
  using assms
proof (induction ms arbitrary: s)
  case Nil
  then show ?case by simp
next
  case (Cons line ms)
  obtain s1 where s1: "scan_line s line = Some s1"
    using scan_line_total by blast
  have "current s1"
    using Cons.prems(1,2) s1 by (auto intro: scan_line_keeps_current_flag)
  moreover have "scan_lines s1 ms = Some s'"
    using Cons.prems(3) s1 by simp
  ultimately show ?case
    using Cons.prems(2) by (intro Cons.IH) simp_all
qed

lemma scan_line_keeps_current_RX:
  assumes "\<not> startswith (strip line) ''RX:''" and "scan_line s line = Some s'"
  shows "map_of (params_current (vals s')) ''RX'' = map_of (params_current (vals s)) ''RX''"
  using assms
  by (cases line rule: scan_line_cases)
     (auto simp: scan_line_pre_header scan_line_current_header scan_line_TX scan_line_other
        startswith_def current_store_value map_of_update_other)

lemma scan_lines_keep_current_RX:
  assumes "\<forall>l\<in>set ys. \<not> startswith (strip l) ''RX:''" and "scan_lines s ys = Some s'"
  shows "map_of (params_current (vals s')) ''RX'' = map_of (params_current (vals s)) ''RX''"
  using assms
proof (induction ys arbitrary: s)
  case Nil
  then show ?case by simp
next
  case (Cons line ys)
  obtain s1 where s1: "scan_line s line = Some s1"
    using scan_line_total by blast
  have "map_of (params_current (vals s1)) ''RX'' = map_of (params_current (vals s)) ''RX''"
    using Cons.prems(1) s1 by (auto intro: scan_line_keeps_current_RX)
  moreover have "map_of (params_current (vals s')) ''RX'' = map_of (params_current (vals s1)) ''RX''"
    using Cons.prems s1 by (intro Cons.IH) simp_all
  ultimately show ?case by simp
qed

lemma scan_line_outside_current:
  assumes "\<not> current s" and "strip line \<noteq> ''Current hardware settings:''"
    and "scan_line s line = Some s'"
  shows "\<not> current s' \<and> params_current (vals s') = params_current (vals s)"
  using assms
  by (cases line rule: scan_line_cases)
     (auto simp: scan_line_pre_header scan_line_RX scan_line_TX scan_line_other
        current_store_value)

lemma scan_lines_outside_current:
  assumes "\<not> current s" and "\<forall>l\<in>set ys. strip l \<noteq> ''Current hardware settings:''"
    and "scan_lines s ys = Some s'"
  shows "params_current (vals s') = params_current (vals s)"
  using assms
proof (induction ys arbitrary: s)
  case Nil
  then show ?case by simp
next
  case (Cons line ys)
  obtain s1 where s1: "scan_line s line = Some s1"
    using scan_line_total by blast
  have "strip line \<noteq> ''Current hardware settings:''"
    using Cons.prems(2) by simp
  with Cons.prems(1)
  have step: "\<not> current s1 \<and> params_current (vals s1) = params_current (vals s)"
    using s1 by (rule scan_line_outside_current)
  moreover have "params_current (vals s') = params_current (vals s1)"
    using Cons.prems s1 step by (intro Cons.IH) simp_all
  ultimately show ?case by simp
qed

lemma scan_lines_after_pre_header:
  assumes "ys = [] \<or> (strip (hd ys) = ''Pre-set maximums:'' \<and>
             (\<forall>l\<in>set ys. strip l \<noteq> ''Current hardware settings:''))"
    and "scan_lines s ys = Some s'"
  shows "params_current (vals s') = params_current (vals s)"
proof (cases ys)
  case Nil
  then show ?thesis using assms(2) by simp
next
  case (Cons l ls)
  then have l: "strip l = ''Pre-set maximums:''"
    and ls: "\<forall>l\<in>set ls. strip l \<noteq> ''Current hardware settings:''"
    using assms(1) by simp_all
  have "scan_lines (s\<lparr>current := False, pre := True\<rparr>) ls = Some s'"
    using assms(2) Cons by (simp add: scan_line_pre_header [OF l])
  then have "params_current (vals s') = params_current (vals (s\<lparr>current := False, pre := True\<rparr>))"
    using ls by (intro scan_lines_outside_current) simp_all
  then show ?thesis by simp
qed

text \<open>
  C4. The last value seen in the current section wins. Let the lines of a stdout be: any
  lines \<open>xs\<close> (an earlier \<^verbatim>\<open>Current hardware settings:\<close> with its own \<^verbatim>\<open>RX:\<close> line, say);
  the header \<^verbatim>\<open>Current hardware settings:\<close>; lines \<open>ms\<close> without the other header; an
  \<^verbatim>\<open>RX:\<close> line \<open>r\<close>; lines \<open>ys1\<close> with no \<^verbatim>\<open>RX:\<close> line; and lines \<open>ys2\<close>, empty or a
  \<^verbatim>\<open>Pre-set maximums:\<close> section with no further \<^verbatim>\<open>Current hardware settings:\<close>. Then the
  scan returns and \<^verbatim>\<open>current.RX\<close> holds the value of \<open>r\<close>.
\<close>
theorem last_current_RX_wins:
  assumes lines: "splitlines (strip stdout) = xs @ [h] @ ms @ [r] @ ys1 @ ys2"
    and h: "strip h = ''Current hardware settings:''"
    and ms: "\<forall>l\<in>set ms. strip l \<noteq> ''Pre-set maximums:''"
    and r: "strip r = ''RX:'' @ rest"
    and ys1: "\<forall>l\<in>set ys1. \<not> startswith (strip l) ''RX:''"
    and ys2: "ys2 = [] \<or> (strip (hd ys2) = ''Pre-set maximums:'' \<and>
                (\<forall>l\<in>set ys2. strip l \<noteq> ''Current hardware settings:''))"
  shows "\<exists>s. scan_stdout p stdout = Some s \<and>
           map_of (params_current (vals s)) ''RX'' =
             Some (strip (takeWhile (\<lambda>c. c \<noteq> CHR '':'') rest))"
proof -
  obtain s1 where s1: "scan_lines (scan_start p) xs = Some s1"
    using scan_lines_total by blast
  let ?s2 = "s1\<lparr>current := True, pre := False\<rparr>"
  have s2: "scan_line s1 h = Some ?s2"
    using h by (rule scan_line_current_header)
  obtain s3 where s3: "scan_lines ?s2 ms = Some s3"
    using scan_lines_total by blast
  have cur3: "current s3"
    using _ ms s3 by (rule scan_lines_keep_current_flag) simp
  let ?s4 = "store_value ''RX'' (second_field rest) s3"
  have s4: "scan_line s3 r = Some ?s4"
    using r by (rule scan_line_RX)
  obtain s5 where s5: "scan_lines ?s4 ys1 = Some s5"
    using scan_lines_total by blast
  obtain s6 where s6: "scan_lines s5 ys2 = Some s6"
    using scan_lines_total by blast
  have "scan_stdout p stdout = Some s6"
    using lines s1 s2 s3 s4 s5 s6 by (simp add: scan_stdout_def scan_lines_append)
  moreover have "map_of (params_current (vals s6)) ''RX'' = Some (second_field rest)"
    using scan_lines_after_pre_header [OF ys2 s6] scan_lines_keep_current_RX [OF ys1 s5] cur3
    by (simp add: current_store_value map_of_update_same)
  ultimately show ?thesis
    by (simp add: second_field_def)
qed

theorem last_current_RX_wins_witness:
  "\<exists>s. scan_stdout empty_parameters
          (unlines [''Current hardware settings:'', ''RX: 256'', ''Current hardware settings:'',
                    ''RX: 512'', ''TX: 512'', ''Pre-set maximums:'', ''RX: 4096'']) = Some s \<and>
        map_of (params_current (vals s)) ''RX'' = Some ''512''"
proof -
  have lines: "splitlines (strip (unlines [''Current hardware settings:'', ''RX: 256'',
           ''Current hardware settings:'', ''RX: 512'', ''TX: 512'', ''Pre-set maximums:'',
           ''RX: 4096''])) =
      [''Current hardware settings:'', ''RX: 256''] @ [''Current hardware settings:''] @ [] @
      [''RX: 512''] @ [''TX: 512''] @ [''Pre-set maximums:'', ''RX: 4096'']"
    by code_simp
  have h: "strip ''Current hardware settings:'' = ''Current hardware settings:''"
    by code_simp
  have ms: "\<forall>l\<in>set []. strip l \<noteq> ''Pre-set maximums:''"
    by simp
  have r: "strip ''RX: 512'' = ''RX:'' @ '' 512''"
    by code_simp
  have ys1: "\<forall>l\<in>set [''TX: 512'']. \<not> startswith (strip l) ''RX:''"
    by code_simp
  have ys2: "[''Pre-set maximums:'', ''RX: 4096''] = [] \<or>
      (strip (hd [''Pre-set maximums:'', ''RX: 4096'']) = ''Pre-set maximums:'' \<and>
       (\<forall>l\<in>set [''Pre-set maximums:'', ''RX: 4096'']. strip l \<noteq> ''Current hardware settings:''))"
    by code_simp
  have v: "strip (takeWhile (\<lambda>c. c \<noteq> CHR '':'') '' 512'') = ''512''"
    by code_simp
  show ?thesis
    using last_current_RX_wins [OF lines h ms r ys1 ys2, of empty_parameters] v
    by simp
qed

subsection \<open>The loop over the interfaces\<close>

lemma process_interface_failed:
  assumes "run_command h (exe @ '' -g '' @ quote iface) (world st) = ((rc, stdout, stderr), w')"
    and "rc \<noteq> 0"
  shows "process_interface h exe st iface =
    Some (st\<lparr>world := w',
            warnings := warnings st @
              [''Unable to run ethtool for '' @ iface @ '': '' @ replace CHR 0x0A CHR ''.'' stderr],
            values_dict := AList.update iface empty_parameters (values_dict st),
            ringparams := ringparams st @
              [\<lparr>interface = iface, supported = False, parameters = empty_parameters,
                msg = Some ''Failed to find ringparams''\<rparr>]\<rparr>)"
  using assms
  by (simp add: process_interface_def warn_def map_of_update_same Let_def)

lemma process_interface_scanned:
  assumes "run_command h (exe @ '' -g '' @ quote iface) (world st) = ((0, stdout, stderr), w')"
  shows "\<exists>s. scan_stdout empty_parameters stdout = Some s \<and>
    process_interface h exe st iface =
    Some (st\<lparr>world := w',
            values_dict := AList.update iface (vals s)
              (AList.update iface empty_parameters (values_dict st)),
            ringparams := ringparams st @
              [\<lparr>interface = iface, supported = True, parameters = vals s, msg = None\<rparr>]\<rparr>)"
proof -
  obtain s where s: "scan_stdout empty_parameters stdout = Some s"
    unfolding scan_stdout_def using scan_lines_total by blast
  then show ?thesis
    using assms by (simp add: process_interface_def map_of_update_same Let_def)
qed

lemma process_interface_appends:
  "\<exists>st' r ws. process_interface h exe st iface = Some st' \<and>
     ringparams st' = ringparams st @ [r] \<and> warnings st' = warnings st @ ws \<and>
     interface r = iface \<and> consistent_record r"
proof -
  obtain rc stdout stderr w'
    where run: "run_command h (exe @ '' -g '' @ quote iface) (world st) = ((rc, stdout, stderr), w')"
    by (metis prod.exhaust)
  show ?thesis
  proof (cases "rc = 0")
    case True
    then show ?thesis
      using process_interface_scanned [of h exe iface st stdout stderr w'] run
      by (auto simp: consistent_record_def)
  next
    case False
    then show ?thesis
      using process_interface_failed [OF run] by (simp add: consistent_record_def)
  qed
qed

lemma main_loop_appends:
  "\<exists>st' rs ws. main_loop h exe st ifaces = Some st' \<and>
     ringparams st' = ringparams st @ rs \<and> warnings st' = warnings st @ ws \<and>
     map interface rs = ifaces \<and> (\<forall>r\<in>set rs. consistent_record r)"
proof (induction ifaces arbitrary: st)
  case Nil
  show ?case by simp
next
  case (Cons iface ifaces)
  obtain st1 r ws1 where step: "process_interface h exe st iface = Some st1"
    "ringparams st1 = ringparams st @ [r]" "warnings st1 = warnings st @ ws1"
    "interface r = iface" "consistent_record r"
    using process_interface_appends [of h exe st iface] by blast
  obtain st2 rs ws2 where rest: "main_loop h exe st1 ifaces = Some st2"
    "ringparams st2 = ringparams st1 @ rs" "warnings st2 = warnings st1 @ ws2"
    "map interface rs = ifaces" "\<forall>r\<in>set rs. consistent_record r"
    using Cons.IH [of st1] by blast
  have "main_loop h exe st (iface # ifaces) = Some st2"
    using step(1) rest(1) by simp
  moreover have "ringparams st2 = ringparams st @ (r # rs)"
    using step(2) rest(2) by simp
  moreover have "warnings st2 = warnings st @ (ws1 @ ws2)"
    using step(3) rest(3) by simp
  moreover have "map interface (r # rs) = iface # ifaces"
    using step(4) rest(4) by simp
  moreover have "\<forall>r\<in>set (r # rs). consistent_record r"
    using step(5) rest(5) by simp
  ultimately show ?case
    by (intro exI [of _ st2] exI [of _ "r # rs"] exI [of _ "ws1 @ ws2"] conjI)
qed

subsection \<open>The whole run\<close>

lemma resolve_interfaces_ringparams:
  "resolve_interfaces h interfaces st = (ifaces, st1) \<Longrightarrow> ringparams st1 = ringparams st"
  by (auto simp: resolve_interfaces_def get_interfaces_def warn_def Let_def
      split: if_splits prod.splits)

lemma main_exits:
  assumes "which_ethtool h = Some exe"
    and "resolve_interfaces h interfaces (run_start w) = (ifaces, st1)"
  shows "\<exists>recs st. main h interfaces w = Exit_json recs st \<and> map interface recs = ifaces \<and>
           (\<forall>r\<in>set recs. consistent_record r)"
proof -
  have "ringparams st1 = []"
    using resolve_interfaces_ringparams [OF assms(2)] by (simp add: run_start_def)
  moreover obtain st2 rs where "main_loop h exe st1 ifaces = Some st2"
    "ringparams st2 = ringparams st1 @ rs" "map interface rs = ifaces"
    "\<forall>r\<in>set rs. consistent_record r"
    using main_loop_appends [of h exe st1 ifaces] by blast
  ultimately show ?thesis
    using assms by (simp add: main_def)
qed

text \<open>
  C3. When \<^verbatim>\<open>ethtool\<close> is found and the list of interfaces given is not empty, the run ends
  in \<^verbatim>\<open>exit_json\<close> with exactly one record per interface given, in the order given, whatever
  the exit codes of the queries are.
\<close>
theorem one_record_per_interface:
  assumes "which_ethtool h = Some exe" and "interfaces \<noteq> []"
  shows "\<exists>recs st. main h interfaces w = Exit_json recs st \<and>
           length recs = length interfaces \<and> map interface recs = interfaces"
proof -
  have "resolve_interfaces h interfaces (run_start w) = (interfaces, run_start w)"
    using assms(2) by (simp add: resolve_interfaces_def)
  then obtain recs st where "main h interfaces w = Exit_json recs st"
    "map interface recs = interfaces"
    using main_exits [OF assms(1)] by blast
  moreover from this(2) have "length recs = length interfaces"
    by (metis length_map)
  ultimately show ?thesis
    by blast
qed

theorem one_record_per_interface_witness:
  "\<exists>recs st. main (scripted_host (Some ''/usr/sbin/ethtool'') True) [''eno4'', ''eno3'']
       [(1, [], ''no such device''), (0, unlines [''Current hardware settings:'', ''RX: 512''], [])] =
       Exit_json recs st \<and>
     length recs = 2 \<and> map interface recs = [''eno4'', ''eno3'']"
proof -
  have exe: "which_ethtool (scripted_host (Some ''/usr/sbin/ethtool'') True) =
      Some ''/usr/sbin/ethtool''"
    by (simp add: scripted_host_def)
  have some: "[''eno4'', ''eno3''] \<noteq> []"
    by simp
  show ?thesis
    using one_record_per_interface [OF exe some] by (simp add: numeral_2_eq_2)
qed

subsection \<open>The support flag, the message and the parameter sets\<close>

text \<open>
  C1, as stated, fails: a query that exits with code 0 and prints no \<^verbatim>\<open>RX:\<close> or \<^verbatim>\<open>TX:\<close> line
  in a section (here an empty stdout) gives a record with \<^verbatim>\<open>supported\<close> true, no \<^verbatim>\<open>msg\<close>
  and both parameter sets empty.
\<close>
theorem supported_with_empty_sets_counterexample:
  "main (scripted_host (Some ''/usr/sbin/ethtool'') True) [''eno1''] [(0, [], [])] =
     Exit_json
       [\<lparr>interface = ''eno1'', supported = True,
         parameters = \<lparr>params_current = [], params_preset = []\<rparr>, msg = None\<rparr>]
       \<lparr>world = [], warnings = [],
        values_dict = [(''eno1'', \<lparr>params_current = [], params_preset = []\<rparr>)],
        ringparams =
          [\<lparr>interface = ''eno1'', supported = True,
            parameters = \<lparr>params_current = [], params_preset = []\<rparr>, msg = None\<rparr>]\<rparr>"
  by code_simp

text \<open>
  C1, amended. In every record a run emits, \<^verbatim>\<open>supported\<close> is false exactly when \<^verbatim>\<open>msg\<close> is
  present, and a record with \<^verbatim>\<open>supported\<close> false has both parameter sets empty.
\<close>

theorem unsupported_iff_msg:
  assumes "main h interfaces w = Exit_json recs st" and "r \<in> set recs"
  shows "(\<not> supported r \<longleftrightarrow> msg r \<noteq> None) \<and>
         (\<not> supported r \<longrightarrow>
            params_current (parameters r) = [] \<and> params_preset (parameters r) = [])"
proof -
  obtain exe where exe: "which_ethtool h = Some exe"
    using assms(1) by (cases "which_ethtool h") (auto simp: main_def)
  obtain ifaces st1 where "resolve_interfaces h interfaces (run_start w) = (ifaces, st1)"
    by (metis prod.exhaust)
  then have "\<forall>r\<in>set recs. consistent_record r"
    using main_exits [OF exe] assms(1) by fastforce
  then have "consistent_record r"
    using assms(2) by simp
  then show ?thesis
    by (auto simp: consistent_record_def empty_parameters_def)
qed

theorem unsupported_iff_msg_witness:
  "main (scripted_host (Some ''/usr/sbin/ethtool'') True) [''eno4''] [(1, [], ''no such device'')] =
     Exit_json
       [\<lparr>interface = ''eno4'', supported = False, parameters = empty_parameters,
         msg = Some ''Failed to find ringparams''\<rparr>]
       \<lparr>world = [], warnings = [''Unable to run ethtool for eno4: no such device''],
        values_dict = [(''eno4'', empty_parameters)],
        ringparams =
          [\<lparr>interface = ''eno4'', supported = False, parameters = empty_parameters,
            msg = Some ''Failed to find ringparams''\<rparr>]\<rparr> \<and>
   params_current empty_parameters = [] \<and> params_preset empty_parameters = []"
proof -
  let ?r = "\<lparr>interface = ''eno4'', supported = False, parameters = empty_parameters,
         msg = Some ''Failed to find ringparams''\<rparr>"
  have run: "main (scripted_host (Some ''/usr/sbin/ethtool'') True) [''eno4'']
       [(1, [], ''no such device'')] =
     Exit_json [?r]
       \<lparr>world = [], warnings = [''Unable to run ethtool for eno4: no such device''],
        values_dict = [(''eno4'', empty_parameters)], ringparams = [?r]\<rparr>"
    by code_simp
  have "?r \<in> set [?r]"
    by simp
  from unsupported_iff_msg [OF run this] run show ?thesis
    by simp
qed

subsection \<open>Discovery\<close>

lemma get_interfaces_loop_filter:
  "get_interfaces_loop acc lines = acc @ filter (\<lambda>intf. intf \<noteq> ''lo'') (map strip lines)"
  by (induction lines arbitrary: acc) (simp_all add: Let_def)

text \<open>
  C6. With no interface given, \<^verbatim>\<open>/proc/net/dev\<close> present and a listing command that exits
  with code 0 and prints the names \<^verbatim>\<open>eno1\<close>, \<^verbatim>\<open>eno2\<close> and \<^verbatim>\<open>lo\<close> in that order, one per line,
  the resolved list is \<^verbatim>\<open>eno1\<close>, \<^verbatim>\<open>eno2\<close>, and when \<^verbatim>\<open>ethtool\<close> is found the records of the run
  are for these two, in that order.
\<close>
theorem discovery_excludes_lo:
  assumes "isfile_proc_net_dev h"
    and "run_command h list_command w = ((0, stdout, stderr), w')"
    and "map strip (splitlines (strip stdout)) = [''eno1'', ''eno2'', ''lo'']"
  shows "resolve_interfaces h [] (run_start w) =
           ([''eno1'', ''eno2''], (run_start w)\<lparr>world := w'\<rparr>) \<and>
         (which_ethtool h \<noteq> None \<longrightarrow>
            (\<exists>recs st. main h [] w = Exit_json recs st \<and>
               map interface recs = [''eno1'', ''eno2'']))"
proof -
  have res: "resolve_interfaces h [] (run_start w) =
           ([''eno1'', ''eno2''], (run_start w)\<lparr>world := w'\<rparr>)"
    using assms
    by (simp add: resolve_interfaces_def get_interfaces_def get_interfaces_loop_filter
        run_start_def)
  have "\<exists>recs st. main h [] w = Exit_json recs st \<and> map interface recs = [''eno1'', ''eno2'']"
    if "which_ethtool h = Some exe" for exe
    using main_exits [OF that res] by auto
  with res show ?thesis
    by auto
qed

theorem discovery_excludes_lo_witness:
  "resolve_interfaces (scripted_host (Some ''/usr/sbin/ethtool'') True) []
     (run_start [(0, unlines [''  eno1'', ''  eno2'', ''    lo''], []), (0, [], []), (0, [], [])]) =
     ([''eno1'', ''eno2''],
      (run_start [(0, unlines [''  eno1'', ''  eno2'', ''    lo''], []), (0, [], []), (0, [], [])])
        \<lparr>world := [(0, [], []), (0, [], [])]\<rparr>) \<and>
   (\<exists>recs st. main (scripted_host (Some ''/usr/sbin/ethtool'') True) []
        [(0, unlines [''  eno1'', ''  eno2'', ''    lo''], []), (0, [], []), (0, [], [])] =
        Exit_json recs st \<and>
      map interface recs = [''eno1'', ''eno2''])"
proof -
  let ?h = "scripted_host (Some ''/usr/sbin/ethtool'') True"
  have isfile: "isfile_proc_net_dev ?h"
    by (simp add: scripted_host_def)
  have run: "run_command ?h list_command
      [(0, unlines [''  eno1'', ''  eno2'', ''    lo''], []), (0, [], []), (0, [], [])] =
      ((0, unlines [''  eno1'', ''  eno2'', ''    lo''], []), [(0, [], []), (0, [], [])])"
    by (simp add: scripted_host_def)
  have names: "map strip (splitlines (strip (unlines [''  eno1'', ''  eno2'', ''    lo'']))) =
      [''eno1'', ''eno2'', ''lo'']"
    by code_simp
  have exe: "which_ethtool ?h \<noteq> None"
    by (simp add: scripted_host_def)
  show ?thesis
    using discovery_excludes_lo [OF isfile run names] exe by simp
qed

subsection \<open>A query that fails\<close>

lemma replace_removes: "old \<noteq> new \<Longrightarrow> old \<notin> set (replace old new s)"
  by (auto simp: replace_def)

text \<open>
  C7. When the query for an interface exits with a non-zero code, the loop, from whatever
  state it is in, appends a record with \<^verbatim>\<open>supported\<close> false, both parameter sets empty and
  \<^verbatim>\<open>msg\<close> \<^verbatim>\<open>Failed to find ringparams\<close>, warns with the interface name and the stderr text in
  which every LF is a full stop (so the text holds no LF), and goes on to append one
  record for each remaining interface.
\<close>
theorem failed_query_is_recorded:
  assumes "run_command h (exe @ '' -g '' @ quote iface) (world st) = ((rc, stdout, stderr), w')"
    and "rc \<noteq> 0"
  shows "\<exists>st' rs ws. main_loop h exe st (iface # rest) = Some st' \<and>
           ringparams st' = ringparams st @
             [\<lparr>interface = iface, supported = False,
               parameters = \<lparr>params_current = [], params_preset = []\<rparr>,
               msg = Some ''Failed to find ringparams''\<rparr>] @ rs \<and>
           map interface rs = rest \<and>
           warnings st' = warnings st @
             [''Unable to run ethtool for '' @ iface @ '': '' @
              replace CHR 0x0A CHR ''.'' stderr] @ ws \<and>
           CHR 0x0A \<notin> set (replace CHR 0x0A CHR ''.'' stderr)"
proof -
  let ?r = "\<lparr>interface = iface, supported = False, parameters = empty_parameters,
             msg = Some ''Failed to find ringparams''\<rparr>"
  let ?m = "''Unable to run ethtool for '' @ iface @ '': '' @ replace CHR 0x0A CHR ''.'' stderr"
  let ?st1 = "st\<lparr>world := w', warnings := warnings st @ [?m],
            values_dict := AList.update iface empty_parameters (values_dict st),
            ringparams := ringparams st @ [?r]\<rparr>"
  have step: "process_interface h exe st iface = Some ?st1"
    using assms by (rule process_interface_failed)
  obtain st2 rs ws where loop: "main_loop h exe ?st1 rest = Some st2"
    "ringparams st2 = ringparams ?st1 @ rs" "warnings st2 = warnings ?st1 @ ws"
    "map interface rs = rest"
    using main_loop_appends [of h exe ?st1 rest] by blast
  have "main_loop h exe st (iface # rest) = Some st2"
    using step loop(1) by simp
  moreover have "ringparams st2 = ringparams st @ [?r] @ rs"
    using loop(2) by simp
  moreover have "warnings st2 = warnings st @ [?m] @ ws"
    using loop(3) by simp
  moreover have "CHR 0x0A \<notin> set (replace CHR 0x0A CHR ''.'' stderr)"
    by (rule replace_removes) simp
  ultimately show ?thesis
    using loop(4) unfolding empty_parameters_def
    by (intro exI [of _ st2] exI [of _ rs] exI [of _ ws] conjI)
qed

theorem failed_query_is_recorded_witness:
  "main_loop (scripted_host (Some ''/usr/sbin/ethtool'') True) ''/usr/sbin/ethtool''
     (run_start [(1, [], unlines [''Cannot get device ring settings'', ''No such device'']),
                 (0, unlines [''Current hardware settings:'', ''RX: 512''], [])])
     [''eno4'', ''eno3''] =
   Some \<lparr>world = [],
         warnings = [''Unable to run ethtool for eno4: Cannot get device ring settings.No such device.''],
         values_dict = [(''eno4'', \<lparr>params_current = [], params_preset = []\<rparr>),
                        (''eno3'', \<lparr>params_current = [(''RX'', ''512'')], params_preset = []\<rparr>)],
         ringparams =
           [\<lparr>interface = ''eno4'', supported = False,
             parameters = \<lparr>params_current = [], params_preset = []\<rparr>,
             msg = Some ''Failed to find ringparams''\<rparr>,
            \<lparr>interface = ''eno3'', supported = True,
             parameters = \<lparr>params_current = [(''RX'', ''512'')], params_preset = []\<rparr>,
             msg = None\<rparr>]\<rparr>"
proof -
  let ?h = "scripted_host (Some ''/usr/sbin/ethtool'') True"
  let ?w = "[(1, [], unlines [''Cannot get device ring settings'', ''No such device'']),
             (0, unlines [''Current hardware settings:'', ''RX: 512''], [])]"
  have run: "run_command ?h (''/usr/sbin/ethtool'' @ '' -g '' @ quote ''eno4'') (world (run_start ?w)) =
      ((1, [], unlines [''Cannot get device ring settings'', ''No such device'']),
       [(0, unlines [''Current hardware settings:'', ''RX: 512''], [])])"
    by (simp add: scripted_host_def run_start_def)
  have rc: "(1::int) \<noteq> 0"
    by simp
  obtain st' rs ws where st': "main_loop ?h ''/usr/sbin/ethtool'' (run_start ?w) (''eno4'' # [''eno3'']) = Some st'"
    using failed_query_is_recorded [OF run rc, of "[''eno3'']"] by blast
  moreover have "main_loop ?h ''/usr/sbin/ethtool'' (run_start ?w) [''eno4'', ''eno3''] =
   Some \<lparr>world = [],
         warnings = [''Unable to run ethtool for eno4: Cannot get device ring settings.No such device.''],
         values_dict = [(''eno4'', \<lparr>params_current = [], params_preset = []\<rparr>),
                        (''eno3'', \<lparr>params_current = [(''RX'', ''512'')], params_preset = []\<rparr>)],
         ringparams =
           [\<lparr>interface = ''eno4'', supported = False,
             parameters = \<lparr>params_current = [], params_preset = []\<rparr>,
             msg = Some ''Failed to find ringparams''\<rparr>,
            \<lparr>interface = ''eno3'', supported = True,
             parameters = \<lparr>params_current = [(''RX'', ''512'')], params_preset = []\<rparr>,
             msg = None\<rparr>]\<rparr>"
    by code_simp
  ultimately show ?thesis
    by simp
qed

subsection \<open>The missing executable\<close>

text \<open>When every command starts, the run is the one \<^const>\<open>main\<close> describes.\<close>

lemma main_loop_always_starts:
  "main_loop_or_fail always_starts h exe st ifaces = Inr (main_loop h exe st ifaces)"
  by (induction ifaces arbitrary: st)
     (simp_all add: process_interface_or_fail_def always_starts_def split: option.splits)

lemma resolve_interfaces_always_starts:
  "resolve_interfaces_or_fail always_starts h interfaces st =
     Inr (resolve_interfaces h interfaces st)"
  by (simp add: resolve_interfaces_or_fail_def resolve_interfaces_def
      get_interfaces_or_fail_def always_starts_def)

lemma main_always_starts:
  "main_or_fail always_starts h interfaces w = Main_ended (main h interfaces w)"
  by (simp add: main_or_fail_def main_def Let_def resolve_interfaces_always_starts
      main_loop_always_starts split: option.splits prod.splits)







end
